theory Spec2Isabelle
  imports Complex_Main
begin

section \<open>Array elements\<close>

text \<open>
  The arrays of \<^verbatim>\<open>rsvd.py\<close> hold IEEE doubles. An element is modelled as a real number or
  one of the three special values; arithmetic on finite values is exact (no rounding, no
  overflow) and the two zeros are identified. Division follows IEEE 754: a finite non-zero
  value divided by zero is an infinity, zero divided by zero is not-a-number, and nothing
  raises.
\<close>

datatype fl = Fin real | PInf | NInf | NaN

datatype error = ValueError | LinAlgError

fun isfinite :: "fl \<Rightarrow> bool" where
  "isfinite (Fin x) = True"
| "isfinite PInf = False"
| "isfinite NInf = False"
| "isfinite NaN = False"

definition signed_inf :: "real \<Rightarrow> fl" where
  "signed_inf x = (if x = 0 then NaN else if 0 < x then PInf else NInf)"

fun fl_add :: "fl \<Rightarrow> fl \<Rightarrow> fl" where
  "fl_add (Fin x) (Fin y) = Fin (x + y)"
| "fl_add NaN y = NaN"
| "fl_add x NaN = NaN"
| "fl_add PInf NInf = NaN"
| "fl_add NInf PInf = NaN"
| "fl_add PInf y = PInf"
| "fl_add x PInf = PInf"
| "fl_add NInf y = NInf"
| "fl_add x NInf = NInf"

fun fl_mul :: "fl \<Rightarrow> fl \<Rightarrow> fl" where
  "fl_mul (Fin x) (Fin y) = Fin (x * y)"
| "fl_mul NaN y = NaN"
| "fl_mul x NaN = NaN"
| "fl_mul PInf (Fin y) = signed_inf y"
| "fl_mul NInf (Fin y) = signed_inf (- y)"
| "fl_mul (Fin x) PInf = signed_inf x"
| "fl_mul (Fin x) NInf = signed_inf (- x)"
| "fl_mul PInf PInf = PInf"
| "fl_mul PInf NInf = NInf"
| "fl_mul NInf PInf = NInf"
| "fl_mul NInf NInf = PInf"

fun fl_div :: "fl \<Rightarrow> fl \<Rightarrow> fl" where
  "fl_div (Fin x) (Fin y) = (if y = 0 then signed_inf x else Fin (x / y))"
| "fl_div NaN y = NaN"
| "fl_div x NaN = NaN"
| "fl_div (Fin x) PInf = Fin 0"
| "fl_div (Fin x) NInf = Fin 0"
| "fl_div PInf (Fin y) = (if 0 \<le> y then PInf else NInf)"
| "fl_div NInf (Fin y) = (if 0 \<le> y then NInf else PInf)"
| "fl_div PInf PInf = NaN"
| "fl_div PInf NInf = NaN"
| "fl_div NInf PInf = NaN"
| "fl_div NInf NInf = NaN"

text \<open>\<^verbatim>\<open>np.maximum\<close>, the binary step of the \<^verbatim>\<open>max\<close> reduction: it propagates not-a-number.\<close>

fun fl_maximum :: "fl \<Rightarrow> fl \<Rightarrow> fl" where
  "fl_maximum (Fin x) (Fin y) = Fin (max x y)"
| "fl_maximum NaN y = NaN"
| "fl_maximum x NaN = NaN"
| "fl_maximum PInf y = PInf"
| "fl_maximum x PInf = PInf"
| "fl_maximum NInf y = y"
| "fl_maximum x NInf = x"

fun fl_le :: "fl \<Rightarrow> fl \<Rightarrow> bool" where
  "fl_le (Fin x) (Fin y) = (x \<le> y)"
| "fl_le NaN y = False"
| "fl_le x NaN = False"
| "fl_le NInf y = True"
| "fl_le x PInf = True"
| "fl_le PInf y = False"
| "fl_le x NInf = False"

fun fl_abs :: "fl \<Rightarrow> fl" where
  "fl_abs (Fin x) = Fin \<bar>x\<bar>"
| "fl_abs PInf = PInf"
| "fl_abs NInf = PInf"
| "fl_abs NaN = NaN"

section \<open>Two-dimensional arrays\<close>

text \<open>
  A two-dimensional \<^verbatim>\<open>ndarray\<close> is its list of rows together with its number of columns, so
  that the shapes \<open>(0, n)\<close> and \<open>(m, 0)\<close> are both represented. A one-dimensional array is a
  list.
\<close>

record mat =
  ncols :: nat
  rows :: "fl list list"

definition nrows :: "mat \<Rightarrow> nat" where
  "nrows M = length (rows M)"

definition shape :: "mat \<Rightarrow> nat \<times> nat" where
  "shape M = (nrows M, ncols M)"

definition wf_mat :: "mat \<Rightarrow> bool" where
  "wf_mat M = list_all (\<lambda>r. length r = ncols M) (rows M)"

definition mat_finite :: "mat \<Rightarrow> bool" where
  "mat_finite M = list_all (list_all isfinite) (rows M)"

text \<open>A real matrix: a well-shaped array all of whose entries are finite.\<close>

definition real_matrix :: "mat \<Rightarrow> bool" where
  "real_matrix M = (wf_mat M \<and> mat_finite M)"

definition col :: "mat \<Rightarrow> nat \<Rightarrow> fl list" where
  "col M j = map (\<lambda>r. r ! j) (rows M)"

text \<open>\<^verbatim>\<open>Q.T\<close>\<close>

definition transpose_mat :: "mat \<Rightarrow> mat" where
  "transpose_mat M = \<lparr>ncols = nrows M, rows = map (col M) [0..<ncols M]\<rparr>"

definition dot :: "fl list \<Rightarrow> fl list \<Rightarrow> fl" where
  "dot r c = foldl fl_add (Fin 0) (map2 fl_mul r c)"

text \<open>\<^verbatim>\<open>mm = np.matmul\<close>: a \<^verbatim>\<open>ValueError\<close> when the inner dimensions differ.\<close>

definition mm :: "mat \<Rightarrow> mat \<Rightarrow> error + mat" where
  "mm X Y =
     (if ncols X \<noteq> nrows Y then Inl ValueError
      else Inr \<lparr>ncols = ncols Y,
                rows = map (\<lambda>r. map (\<lambda>j. dot r (col Y j)) [0..<ncols Y]) (rows X)\<rparr>)"

text \<open>
  \<^verbatim>\<open>X.max(axis=0)\<close>: the maximum of every column. The reduction has no identity, so NumPy
  raises \<^verbatim>\<open>ValueError\<close> when the reduced axis is empty, that is when \<open>X\<close> has no row.
\<close>

definition reduce_maximum :: "fl list \<Rightarrow> fl" where
  "reduce_maximum c = foldl fl_maximum (hd c) (tl c)"

definition max_axis0 :: "mat \<Rightarrow> error + fl list" where
  "max_axis0 X =
     (if rows X = [] then Inl ValueError
      else Inr (map (\<lambda>j. reduce_maximum (col X j)) [0..<ncols X]))"

text \<open>
  \<^verbatim>\<open>X / v\<close> for a one-dimensional \<open>v\<close> with one entry per column of \<open>X\<close>: broadcasting divides
  every row of \<open>X\<close> by \<open>v\<close>, entry by entry.
\<close>

definition divide_rows :: "mat \<Rightarrow> fl list \<Rightarrow> mat" where
  "divide_rows X v = \<lparr>ncols = ncols X, rows = map (\<lambda>r. map2 fl_div r v) (rows X)\<rparr>"

text \<open>\<^verbatim>\<open>normalize_columns(X)\<close>: \<^verbatim>\<open>return X / X.max(axis=0)\<close>\<close>

definition normalize_columns :: "mat \<Rightarrow> error + mat" where
  "normalize_columns X =
     (case max_axis0 X of
        Inl e \<Rightarrow> Inl e
      | Inr mx \<Rightarrow> Inr (divide_rows X mx))"

text \<open>Python's slice \<^verbatim>\<open>[:k]\<close> on an axis of length \<open>n\<close>: a negative \<open>k\<close> counts from the end.\<close>

definition slice_stop :: "int \<Rightarrow> nat \<Rightarrow> nat" where
  "slice_stop k n = (if k < 0 then nat (int n + k) else min (nat k) n)"

text \<open>\<^verbatim>\<open>U[:, :k]\<close>\<close>

definition cols_upto :: "int \<Rightarrow> mat \<Rightarrow> mat" where
  "cols_upto k M =
     \<lparr>ncols = slice_stop k (ncols M), rows = map (take (slice_stop k (ncols M))) (rows M)\<rparr>"

text \<open>\<^verbatim>\<open>Vt[:k, :]\<close>\<close>

definition rows_upto :: "int \<Rightarrow> mat \<Rightarrow> mat" where
  "rows_upto k M = \<lparr>ncols = ncols M, rows = take (slice_stop k (nrows M)) (rows M)\<rparr>"

text \<open>\<^verbatim>\<open>\<Sigma>[:k]\<close>\<close>

definition vec_upto :: "int \<Rightarrow> fl list \<Rightarrow> fl list" where
  "vec_upto k v = take (slice_stop k (length v)) v"

section \<open>The random source\<close>

text \<open>
  The state of NumPy's global generator is the sequence of standard-normal draws it will
  still produce (what a seed fixes). \<^verbatim>\<open>np.random.randn(n, l)\<close> fills an \<open>n \<times> l\<close> array with the
  next \<open>n * l\<close> draws, row by row, and advances the generator; a negative dimension is a
  \<^verbatim>\<open>ValueError\<close>.
\<close>

type_synonym rng = "nat \<Rightarrow> real"

definition randn :: "nat \<Rightarrow> int \<Rightarrow> rng \<Rightarrow> error + (mat \<times> rng)" where
  "randn n l g =
     (if l < 0 then Inl ValueError
      else Inr (\<lparr>ncols = nat l,
                 rows = map (\<lambda>i. map (\<lambda>j. Fin (g (i * nat l + j))) [0..<nat l]) [0..<n]\<rparr>,
                \<lambda>t. g (t + n * nat l)))"

section \<open>The dense linear-algebra primitives\<close>

text \<open>
  \<^verbatim>\<open>np.linalg.qr(Y, mode='reduced')\<close> and \<^verbatim>\<open>np.linalg.svd(B)\<close> are LAPACK routines outside the
  repository: they are parameters of the model, constrained by the contract \<open>linalg_ok\<close>.
\<close>

record linalg =
  qr_reduced :: "mat \<Rightarrow> error + (mat \<times> mat)"
  svd :: "mat \<Rightarrow> error + (mat \<times> fl list \<times> mat)"

definition sorted_desc :: "fl list \<Rightarrow> bool" where
  "sorted_desc v = sorted_wrt (\<lambda>a b. fl_le b a) v"

definition orthonormal_rows :: "mat \<Rightarrow> bool" where
  "orthonormal_rows M =
     list_all (\<lambda>i. list_all (\<lambda>j. dot (rows M ! i) (rows M ! j) = Fin (if i = j then 1 else 0))
        [0..<nrows M]) [0..<nrows M]"

definition orthonormal_cols :: "mat \<Rightarrow> bool" where
  "orthonormal_cols M = orthonormal_rows (transpose_mat M)"

text \<open>
  The reduced QR factorisation of an \<open>m \<times> l\<close> array never raises; with \<open>K = min m l\<close> it returns
  \<open>Q\<close> of shape \<open>(m, K)\<close> and \<open>R\<close> of shape \<open>(K, l)\<close>, and \<open>Q\<close> is finite when the input is.
\<close>

definition qr_ok :: "(mat \<Rightarrow> error + (mat \<times> mat)) \<Rightarrow> bool" where
  "qr_ok qr = (\<forall>Y. wf_mat Y \<longrightarrow>
     (\<exists>Q R. qr Y = Inr (Q, R) \<and> wf_mat Q \<and> wf_mat R \<and>
        shape Q = (nrows Y, min (nrows Y) (ncols Y)) \<and>
        shape R = (min (nrows Y) (ncols Y), ncols Y) \<and>
        (mat_finite Y \<longrightarrow> mat_finite Q)))"

text \<open>
  The singular value decomposition is called with NumPy's default \<^verbatim>\<open>full_matrices=True\<close>: for
  a finite \<open>p \<times> n\<close> array it returns \<open>S\<close> of shape \<open>(p, p)\<close> with orthonormal columns, the
  \<open>min p n\<close> singular values in descending order, and \<open>Vt\<close> of shape \<open>(n, n)\<close> with
  orthonormal rows. On an array with a non-finite entry the routine may raise
  \<^verbatim>\<open>LinAlgError\<close>; the contract says nothing there.
\<close>

definition svd_ok :: "(mat \<Rightarrow> error + (mat \<times> fl list \<times> mat)) \<Rightarrow> bool" where
  "svd_ok sv = (\<forall>B. wf_mat B \<and> mat_finite B \<longrightarrow>
     (\<exists>S Sg Vt. sv B = Inr (S, Sg, Vt) \<and> wf_mat S \<and> wf_mat Vt \<and>
        shape S = (nrows B, nrows B) \<and>
        length Sg = min (nrows B) (ncols B) \<and>
        shape Vt = (ncols B, ncols B) \<and>
        sorted_desc Sg \<and> orthonormal_cols S \<and> orthonormal_rows Vt))"

definition linalg_ok :: "linalg \<Rightarrow> bool" where
  "linalg_ok la = (qr_ok (qr_reduced la) \<and> svd_ok (svd la))"

section \<open>The program\<close>

text \<open>\<^verbatim>\<open>find_Q(A, l)\<close>, threading the generator state.\<close>

definition find_Q :: "linalg \<Rightarrow> mat \<Rightarrow> int \<Rightarrow> rng \<Rightarrow> error + (mat \<times> rng)" where
  "find_Q la A l g =
     (case randn (ncols A) l g of
        Inl e \<Rightarrow> Inl e
      | Inr (Om, g') \<Rightarrow>
     (case mm A Om of
        Inl e \<Rightarrow> Inl e
      | Inr Y \<Rightarrow>
     (case normalize_columns Y of
        Inl e \<Rightarrow> Inl e
      | Inr Yn \<Rightarrow>
     (case qr_reduced la Yn of
        Inl e \<Rightarrow> Inl e
      | Inr (Q, R) \<Rightarrow> Inr (Q, g')))))"

text \<open>The value \<^verbatim>\<open>rsvd\<close> returns: a tuple of three arrays, or of four with \<^verbatim>\<open>return_Q\<close>.\<close>

datatype rsvd_result = Triple mat "fl list" mat | Quadruple mat "fl list" mat mat

definition rsvd :: "linalg \<Rightarrow> mat \<Rightarrow> int \<Rightarrow> int option \<Rightarrow> bool \<Rightarrow> rng \<Rightarrow> error + (rsvd_result \<times> rng)" where
  "rsvd la A k l return_Q g =
     (let l' = (case l of None \<Rightarrow> 2 * k | Some v \<Rightarrow> v) in
      case find_Q la A l' g of
        Inl e \<Rightarrow> Inl e
      | Inr (Q, g') \<Rightarrow>
     (case mm (transpose_mat Q) A of
        Inl e \<Rightarrow> Inl e
      | Inr B \<Rightarrow>
     (case svd la B of
        Inl e \<Rightarrow> Inl e
      | Inr (S, Sg, Vt) \<Rightarrow>
     (case mm Q S of
        Inl e \<Rightarrow> Inl e
      | Inr U \<Rightarrow>
          if return_Q
          then Inr (Quadruple (cols_upto k U) (vec_upto k Sg) (rows_upto k Vt) Q, g')
          else Inr (Triple (cols_upto k U) (vec_upto k Sg) (rows_upto k Vt), g')))))"

text \<open>
  The local variables of \<^verbatim>\<open>rsvd\<close> before the truncation, \<open>(Q, B, S, \<Sigma>, Vt, U)\<close>, for an
  oversampling \<open>l\<close> already resolved.
\<close>

definition rsvd_locals ::
  "linalg \<Rightarrow> mat \<Rightarrow> int \<Rightarrow> rng \<Rightarrow> error + ((mat \<times> mat \<times> mat \<times> fl list \<times> mat \<times> mat) \<times> rng)" where
  "rsvd_locals la A l g =
     (case find_Q la A l g of
        Inl e \<Rightarrow> Inl e
      | Inr (Q, g') \<Rightarrow>
     (case mm (transpose_mat Q) A of
        Inl e \<Rightarrow> Inl e
      | Inr B \<Rightarrow>
     (case svd la B of
        Inl e \<Rightarrow> Inl e
      | Inr (S, Sg, Vt) \<Rightarrow>
     (case mm Q S of
        Inl e \<Rightarrow> Inl e
      | Inr U \<Rightarrow> Inr ((Q, B, S, Sg, Vt, U), g')))))"

definition default_l :: "int \<Rightarrow> int option \<Rightarrow> int" where
  "default_l k l = (case l of None \<Rightarrow> 2 * k | Some v \<Rightarrow> v)"

text \<open>
  The sketch \<open>Y = A \<Omega>\<close> of a call has no column whose maximum is zero: the normalisation then
  divides by non-zero numbers only.
\<close>

definition sketch_maxima_nonzero :: "mat \<Rightarrow> int \<Rightarrow> rng \<Rightarrow> bool" where
  "sketch_maxima_nonzero A l g =
     (case randn (ncols A) l g of
        Inl e \<Rightarrow> False
      | Inr (Om, g') \<Rightarrow>
     (case mm A Om of
        Inl e \<Rightarrow> False
      | Inr Y \<Rightarrow>
     (case max_axis0 Y of
        Inl e \<Rightarrow> False
      | Inr mx \<Rightarrow> list_all (\<lambda>v. v \<noteq> Fin 0) mx)))"

section \<open>A reference instance of the primitives\<close>

text \<open>
  An instance of the primitives that meets the contract, for evaluating the program on
  concrete inputs. On a finite input its \<open>Q\<close> is the leading columns of the identity, which is
  the exact factor of an upper-trapezoidal input with a non-negative diagonal; on an input with
  a non-finite entry its \<open>Q\<close> is filled with not-a-number, as Householder reflections built from
  a non-finite column are. Its singular value decomposition takes \<open>S\<close> and \<open>Vt\<close> to be identities
  and \<open>\<Sigma>\<close> the sorted magnitudes of the diagonal, which is exact for a diagonal input, and
  raises \<^verbatim>\<open>LinAlgError\<close> on a non-finite input, as NumPy does when the LAPACK driver reports
  failure.
\<close>

definition eye :: "nat \<Rightarrow> nat \<Rightarrow> mat" where
  "eye m n = \<lparr>ncols = n, rows = map (\<lambda>i. map (\<lambda>j. Fin (if i = j then 1 else 0)) [0..<n]) [0..<m]\<rparr>"

fun magnitude :: "fl \<Rightarrow> real" where
  "magnitude (Fin x) = \<bar>x\<bar>"
| "magnitude PInf = 0"
| "magnitude NInf = 0"
| "magnitude NaN = 0"

definition nan_mat :: "nat \<Rightarrow> nat \<Rightarrow> mat" where
  "nan_mat m n = \<lparr>ncols = n, rows = replicate m (replicate n NaN)\<rparr>"

definition qr_ref :: "mat \<Rightarrow> error + (mat \<times> mat)" where
  "qr_ref Y =
     Inr (if mat_finite Y then eye (nrows Y) (min (nrows Y) (ncols Y))
          else nan_mat (nrows Y) (min (nrows Y) (ncols Y)),
          \<lparr>ncols = ncols Y, rows = take (min (nrows Y) (ncols Y)) (rows Y)\<rparr>)"

definition svd_ref :: "mat \<Rightarrow> error + (mat \<times> fl list \<times> mat)" where
  "svd_ref B =
     (if mat_finite B
      then Inr (eye (nrows B) (nrows B),
                map Fin (rev (sort (map (\<lambda>i. magnitude (rows B ! i ! i)) [0..<min (nrows B) (ncols B)]))),
                eye (ncols B) (ncols B))
      else Inl LinAlgError)"

definition la_ref :: linalg where
  "la_ref = \<lparr>qr_reduced = qr_ref, svd = svd_ref\<rparr>"

section \<open>The normalisation as the specification words it\<close>

text \<open>
  The specification's overview describes the column normaliser as dividing every column by its
  entry of largest absolute value; this second definition follows those words.
\<close>

definition max_magnitude_entry :: "fl list \<Rightarrow> fl" where
  "max_magnitude_entry c =
     foldl (\<lambda>a b. if fl_le (fl_abs a) (fl_abs b) \<and> fl_abs a \<noteq> fl_abs b then b else a) (hd c) (tl c)"

definition spec_normalize_columns :: "mat \<Rightarrow> error + mat" where
  "spec_normalize_columns X =
     (if rows X = [] then Inl ValueError
      else Inr (divide_rows X (map (\<lambda>j. max_magnitude_entry (col X j)) [0..<ncols X])))"

text \<open>Applying the normaliser twice.\<close>

definition normalize_twice :: "mat \<Rightarrow> error + mat" where
  "normalize_twice X =
     (case normalize_columns X of
        Inl e \<Rightarrow> Inl e
      | Inr Y \<Rightarrow> normalize_columns Y)"

text \<open>Every column of \<open>X\<close> has a maximum, and it is positive.\<close>

definition column_maxima_positive :: "mat \<Rightarrow> bool" where
  "column_maxima_positive X =
     (case max_axis0 X of
        Inl e \<Rightarrow> False
      | Inr mx \<Rightarrow> list_all (\<lambda>v. fl_le (Fin 0) v \<and> v \<noteq> Fin 0) mx)"

section \<open>Observing a call\<close>

text \<open>What a call returns, without the generator state it leaves behind.\<close>

definition returned :: "error + ('a \<times> rng) \<Rightarrow> error + 'a" where
  "returned r = map_sum id fst r"

text \<open>The shapes of the three factors a call of \<^verbatim>\<open>rsvd\<close> returns.\<close>

definition result_shapes :: "rsvd_result \<Rightarrow> (nat \<times> nat) \<times> nat \<times> (nat \<times> nat)" where
  "result_shapes r =
     (case r of
        Triple U s V \<Rightarrow> (shape U, length s, shape V)
      | Quadruple U s V Q \<Rightarrow> (shape U, length s, shape V))"

section \<open>Concrete inputs\<close>

text \<open>The matrix of the docstring of \<^verbatim>\<open>normalize_columns\<close> and the result printed there.\<close>

definition X_doc :: mat where
  "X_doc = \<lparr>ncols = 3, rows = [[Fin 1000, Fin 10, Fin 0.5],
                               [Fin 765, Fin 5, Fin 0.35],
                               [Fin 800, Fin 7, Fin 0.09]]\<rparr>"

definition R_doc :: mat where
  "R_doc = \<lparr>ncols = 3, rows = [[Fin 1, Fin 1, Fin 1],
                               [Fin 0.765, Fin 0.5, Fin 0.7],
                               [Fin 0.8, Fin 0.7, Fin 0.18]]\<rparr>"

definition X_mixed :: mat where
  "X_mixed = \<lparr>ncols = 1, rows = [[Fin 1], [Fin (- 3)]]\<rparr>"

definition X_negative :: mat where
  "X_negative = \<lparr>ncols = 1, rows = [[Fin (- 2)], [Fin (- 4)]]\<rparr>"

definition X_zero_max :: mat where
  "X_zero_max = \<lparr>ncols = 2, rows = [[Fin 0, Fin 1], [Fin (- 1), Fin 2]]\<rparr>"

definition A_1x1 :: mat where
  "A_1x1 = \<lparr>ncols = 1, rows = [[Fin 2]]\<rparr>"

definition A_2x3 :: mat where
  "A_2x3 = \<lparr>ncols = 3, rows = [[Fin 2, Fin 0, Fin 0], [Fin 0, Fin 1, Fin 0]]\<rparr>"

definition A_1x3 :: mat where
  "A_1x3 = \<lparr>ncols = 3, rows = [[Fin 1, Fin 0, Fin 0]]\<rparr>"

definition A_0x1 :: mat where
  "A_0x1 = \<lparr>ncols = 1, rows = []\<rparr>"

definition A_diag :: mat where
  "A_diag = \<lparr>ncols = 2, rows = [[Fin 2, Fin 0], [Fin 0, Fin 1]]\<rparr>"


definition I_2 :: mat where
  "I_2 = \<lparr>ncols = 2, rows = [[Fin 1, Fin 0], [Fin 0, Fin 1]]\<rparr>"

text \<open>
  Generator states: every draw is \<open>1\<close>; only the first draw is \<open>1\<close>; the draws that fill a
  \<open>2 \<times> 2\<close> identity; four draws \<open>1\<close> and then zeros.
\<close>

definition ones_rng :: rng where
  "ones_rng = (\<lambda>t. 1)"


definition eye2_rng :: rng where
  "eye2_rng = (\<lambda>t. if t = 0 \<or> t = 3 then 1 else 0)"


text \<open>A matrix with a zero row, and the generator whose every draw is \<open>-1\<close>.\<close>

definition A_zero_row :: mat where
  "A_zero_row = \<lparr>ncols = 1, rows = [[Fin 0], [Fin 1]]\<rparr>"

definition neg_rng :: rng where
  "neg_rng = (\<lambda>t. - 1)"

section \<open>Properties of the array operations\<close>

subsection \<open>Elements and column maxima\<close>

lemma isfinite_iff: "isfinite x \<longleftrightarrow> (\<exists>r. x = Fin r)"
  by (cases x) auto

lemma finite_list_map_Fin: "list_all isfinite c \<Longrightarrow> \<exists>xs. c = map Fin xs"
proof (induction c)
  case Nil
  then show ?case by simp
next
  case (Cons a c)
  then obtain xs where "c = map Fin xs" by auto
  moreover from Cons.prems obtain r where "a = Fin r" by (auto simp: isfinite_iff)
  ultimately have "a # c = map Fin (r # xs)" by simp
  then show ?case by (intro exI[where x = "r # xs"])
qed

lemma foldl_maximum_Fin: "foldl fl_maximum (Fin a) (map Fin xs) = Fin (fold max xs a)"
  by (induction xs arbitrary: a) (simp_all add: max.commute)

lemma reduce_maximum_Fin:
  "reduce_maximum (map Fin (x # xs)) = Fin (Max (set (x # xs)))"
  by (simp add: reduce_maximum_def foldl_maximum_Fin Max.set_eq_fold del: set_simps)

lemma fl_div_one [simp]: "fl_div x (Fin 1) = x"
  by (cases x) auto

lemma fl_div_zero_nonfinite: "\<not> isfinite (fl_div x (Fin 0))"
  by (cases x) (auto simp: signed_inf_def)

lemma fl_div_finite: "isfinite x \<Longrightarrow> isfinite v \<Longrightarrow> v \<noteq> Fin 0 \<Longrightarrow> isfinite (fl_div x v)"
  by (auto simp: isfinite_iff)

lemma length_col [simp]: "length (col M j) = nrows M"
  by (simp add: col_def nrows_def)

lemma wf_mat_row: "wf_mat M \<Longrightarrow> r \<in> set (rows M) \<Longrightarrow> length r = ncols M"
  by (auto simp: wf_mat_def list_all_iff)

lemma wf_mat_nth: "wf_mat M \<Longrightarrow> i < nrows M \<Longrightarrow> length (rows M ! i) = ncols M"
  by (simp add: wf_mat_row nrows_def)

lemma mat_finite_row: "mat_finite M \<Longrightarrow> r \<in> set (rows M) \<Longrightarrow> list_all isfinite r"
  by (auto simp: mat_finite_def list_all_iff)

lemma shape_eq: "shape M = (a, b) \<longleftrightarrow> nrows M = a \<and> ncols M = b"
  by (auto simp: shape_def)

lemma finite_col: "mat_finite X \<Longrightarrow> wf_mat X \<Longrightarrow> j < ncols X \<Longrightarrow> list_all isfinite (col X j)"
  by (auto simp: mat_finite_def wf_mat_def col_def list_all_iff)

lemma col_nonempty: "rows X \<noteq> [] \<Longrightarrow> col X j \<noteq> []"
  by (simp add: col_def)

lemma reduce_maximum_finite:
  assumes "c \<noteq> []" "list_all isfinite c"
  shows "reduce_maximum c \<in> set c \<and> list_all (\<lambda>x. fl_le x (reduce_maximum c)) c \<and> isfinite (reduce_maximum c)"
proof -
  from assms(2) obtain xs where c: "c = map Fin xs" using finite_list_map_Fin by blast
  with assms(1) obtain y ys where xs: "xs = y # ys" by (cases xs) auto
  have red: "reduce_maximum c = Fin (Max (set xs))"
    unfolding c xs by (rule reduce_maximum_Fin)
  have "Max (set xs) \<in> set xs" using xs by (intro Max_in) auto
  then have "Fin (Max (set xs)) \<in> set c" by (simp add: c)
  moreover have "list_all (\<lambda>x. fl_le x (Fin (Max (set xs)))) c"
    using xs by (simp add: c list_all_iff)
  ultimately show ?thesis by (simp only: red isfinite.simps simp_thms)
qed

lemma reduce_maximum_scaled:
  assumes "c \<noteq> []" "list_all isfinite c" "reduce_maximum c = Fin M" "0 < M"
  shows "reduce_maximum (map (\<lambda>x. fl_div x (Fin M)) c) = Fin 1"
proof -
  from assms(2) obtain xs where c: "c = map Fin xs" using finite_list_map_Fin by blast
  with assms(1) obtain y ys where xs: "xs = y # ys" by (cases xs) auto
  have red: "reduce_maximum c = Fin (Max (set xs))"
    unfolding c xs by (rule reduce_maximum_Fin)
  with assms(3) have M: "M = Max (set xs)" by simp
  have "map (\<lambda>x. fl_div x (Fin M)) c = map Fin (map (\<lambda>x. x / M) xs)"
    using assms(4) by (simp add: c)
  also have "\<dots> = map Fin ((y / M) # map (\<lambda>x. x / M) ys)" by (simp add: xs)
  finally have "reduce_maximum (map (\<lambda>x. fl_div x (Fin M)) c) =
      Fin (Max (set ((y / M) # map (\<lambda>x. x / M) ys)))"
    by (simp only: reduce_maximum_Fin)
  also have "set ((y / M) # map (\<lambda>x. x / M) ys) = (\<lambda>x. x / M) ` set xs" by (simp add: xs)
  also have "Max ((\<lambda>x. x / M) ` set xs) = Max (set xs) / M"
    using assms(4) xs by (intro mono_Max_commute[symmetric] monoI) (auto simp: divide_right_mono)
  also have "\<dots> = 1" using assms(4) M by simp
  finally show ?thesis .
qed

subsection \<open>The column normaliser\<close>

lemma max_axis0_rows:
  "rows X \<noteq> [] \<Longrightarrow> max_axis0 X = Inr (map (\<lambda>j. reduce_maximum (col X j)) [0..<ncols X])"
  by (simp add: max_axis0_def)

lemma max_axis0_empty: "rows X = [] \<Longrightarrow> max_axis0 X = Inl ValueError"
  by (simp add: max_axis0_def)

lemma max_axis0_length: "max_axis0 X = Inr mx \<Longrightarrow> length mx = ncols X"
  by (auto simp: max_axis0_def split: if_splits)

lemma divide_rows_shape [simp]:
  "ncols (divide_rows X v) = ncols X" "nrows (divide_rows X v) = nrows X"
  by (simp_all add: divide_rows_def nrows_def)

lemma divide_rows_wf: "wf_mat X \<Longrightarrow> length v = ncols X \<Longrightarrow> wf_mat (divide_rows X v)"
  by (auto simp: wf_mat_def divide_rows_def list_all_iff)

lemma divide_rows_nth:
  assumes "wf_mat X" "length v = ncols X" "i < nrows X" "j < ncols X"
  shows "rows (divide_rows X v) ! i ! j = fl_div (rows X ! i ! j) (v ! j)"
  using assms by (simp add: divide_rows_def nrows_def wf_mat_nth)

lemma col_divide_rows:
  assumes "wf_mat X" "length v = ncols X" "j < ncols X"
  shows "col (divide_rows X v) j = map (\<lambda>x. fl_div x (v ! j)) (col X j)"
  using assms by (auto simp: col_def divide_rows_def wf_mat_row)

lemma map2_div_ones: "length r = n \<Longrightarrow> map2 fl_div r (map (\<lambda>j. Fin 1) [0..<n]) = r"
  by (rule nth_equalityI) simp_all

lemma normalize_columns_rows:
  "rows X \<noteq> [] \<Longrightarrow>
   normalize_columns X = Inr (divide_rows X (map (\<lambda>j. reduce_maximum (col X j)) [0..<ncols X]))"
  by (simp add: normalize_columns_def max_axis0_rows)

lemma normalize_columns_ok:
  assumes "wf_mat Y" "rows Y \<noteq> []"
  shows "\<exists>Yn. normalize_columns Y = Inr Yn \<and> wf_mat Yn \<and> nrows Yn = nrows Y \<and> ncols Yn = ncols Y"
  using assms by (simp add: normalize_columns_rows divide_rows_wf)

lemma normalize_columns_finite:
  assumes "wf_mat Y" "mat_finite Y" "max_axis0 Y = Inr mx" "list_all (\<lambda>v. v \<noteq> Fin 0) mx"
    and "normalize_columns Y = Inr Yn"
  shows "mat_finite Yn"
proof -
  from assms(3) have ne: "rows Y \<noteq> []" by (auto simp: max_axis0_def split: if_splits)
  have mx: "mx = map (\<lambda>j. reduce_maximum (col Y j)) [0..<ncols Y]"
    using assms(3) max_axis0_rows[OF ne] by simp
  have Yn: "Yn = divide_rows Y mx" using assms(3,5) by (simp add: normalize_columns_def)
  have mxfin: "list_all isfinite mx"
    unfolding mx using reduce_maximum_finite[OF col_nonempty[OF ne] finite_col[OF assms(2,1)]]
    by (simp add: list_all_iff)
  have "list_all isfinite (map2 fl_div r mx)" if "r \<in> set (rows Y)" for r
  proof -
    have "list_all isfinite r" using assms(2) that by (rule mat_finite_row)
    then show ?thesis using mxfin assms(4)
      by (auto simp: list_all_iff intro!: fl_div_finite dest: set_zip_leftD set_zip_rightD)
  qed
  then show ?thesis by (simp add: Yn divide_rows_def mat_finite_def list_all_iff)
qed

subsection \<open>Products, transposes and slices\<close>

lemma foldl_add_Fin: "foldl fl_add (Fin a) (map Fin zs) = Fin (a + sum_list zs)"
  by (induction zs arbitrary: a) (simp_all add: add.assoc)

lemma map2_mul_Fin: "map2 fl_mul (map Fin xs) (map Fin ys) = map Fin (map2 (*) xs ys)"
  by (auto simp: zip_map_map)

lemma dot_Fin: "dot (map Fin xs) (map Fin ys) = Fin (sum_list (map2 (*) xs ys))"
  by (simp only: dot_def map2_mul_Fin foldl_add_Fin) simp

lemma dot_finite: "list_all isfinite r \<Longrightarrow> list_all isfinite c \<Longrightarrow> isfinite (dot r c)"
  using finite_list_map_Fin[of r] finite_list_map_Fin[of c] by (auto simp: dot_Fin)

lemma randn_ok:
  assumes "0 \<le> l"
  shows "\<exists>Om. randn n l g = Inr (Om, \<lambda>t. g (t + n * nat l)) \<and> wf_mat Om \<and> mat_finite Om \<and>
           nrows Om = n \<and> ncols Om = nat l"
  using assms by (simp add: randn_def wf_mat_def mat_finite_def nrows_def list_all_iff)

lemma randn_entries:
  assumes "randn n l g = Inr (Om, g')" "i < n" "j < nat l"
  shows "rows Om ! i ! j = Fin (g (i * nat l + j))"
  using assms by (auto simp: randn_def split: if_splits)

lemma randn_negative: "l < 0 \<Longrightarrow> randn n l g = Inl ValueError"
  by (simp add: randn_def)

lemma mm_ok:
  assumes "ncols X = nrows Y"
  shows "\<exists>Z. mm X Y = Inr Z \<and> wf_mat Z \<and> nrows Z = nrows X \<and> ncols Z = ncols Y"
  using assms by (simp add: mm_def wf_mat_def nrows_def list_all_iff)

lemma mm_finite:
  assumes "mat_finite X" "wf_mat Y" "mat_finite Y" "mm X Y = Inr Z"
  shows "mat_finite Z"
proof -
  from assms(4) have Z: "Z = \<lparr>ncols = ncols Y,
      rows = map (\<lambda>r. map (\<lambda>j. dot r (col Y j)) [0..<ncols Y]) (rows X)\<rparr>"
    by (auto simp: mm_def split: if_splits)
  have "isfinite (dot r (col Y j))" if "r \<in> set (rows X)" "j < ncols Y" for r j
    using mat_finite_row[OF assms(1) that(1)] finite_col[OF assms(3,2) that(2)]
    by (rule dot_finite)
  then show ?thesis by (simp add: Z mat_finite_def list_all_iff)
qed

lemma transpose_mat_shape [simp]:
  "nrows (transpose_mat M) = ncols M" "ncols (transpose_mat M) = nrows M"
  by (simp_all add: transpose_mat_def nrows_def)

lemma transpose_mat_wf: "wf_mat (transpose_mat M)"
  by (simp add: transpose_mat_def wf_mat_def list_all_iff)

lemma transpose_mat_finite: "wf_mat M \<Longrightarrow> mat_finite M \<Longrightarrow> mat_finite (transpose_mat M)"
  using finite_col[of M] by (simp add: transpose_mat_def mat_finite_def[of "\<lparr>ncols = _, rows = _\<rparr>"] list_all_iff)

lemma slice_stop_nonneg: "0 \<le> k \<Longrightarrow> slice_stop k n = min (nat k) n"
  by (simp add: slice_stop_def)

lemma cols_upto_shape:
  "0 \<le> k \<Longrightarrow> shape (cols_upto k M) = (nrows M, min (nat k) (ncols M))"
  by (simp add: cols_upto_def shape_def nrows_def slice_stop_nonneg)

lemma rows_upto_shape:
  "0 \<le> k \<Longrightarrow> shape (rows_upto k M) = (min (nat k) (nrows M), ncols M)"
  by (simp add: rows_upto_def shape_def nrows_def slice_stop_nonneg)

lemma vec_upto_length: "0 \<le> k \<Longrightarrow> length (vec_upto k v) = min (nat k) (length v)"
  by (simp add: vec_upto_def slice_stop_nonneg)



section \<open>The pipeline of \<^verbatim>\<open>find_Q\<close> and \<^verbatim>\<open>rsvd\<close>\<close>

lemma find_Q_steps:
  assumes la: "qr_ok (qr_reduced la)" and wf: "wf_mat A" and ne: "rows A \<noteq> []" and l: "0 \<le> l"
  shows "\<exists>Om Y Yn Q R.
     randn (ncols A) l g = Inr (Om, \<lambda>t. g (t + ncols A * nat l)) \<and>
     wf_mat Om \<and> mat_finite Om \<and> shape Om = (ncols A, nat l) \<and>
     mm A Om = Inr Y \<and> wf_mat Y \<and> shape Y = (nrows A, nat l) \<and>
     normalize_columns Y = Inr Yn \<and> wf_mat Yn \<and> shape Yn = (nrows A, nat l) \<and>
     qr_reduced la Yn = Inr (Q, R) \<and> wf_mat Q \<and>
     shape Q = (nrows A, min (nrows A) (nat l)) \<and>
     (mat_finite Yn \<longrightarrow> mat_finite Q) \<and>
     find_Q la A l g = Inr (Q, \<lambda>t. g (t + ncols A * nat l))"
proof -
  let ?g' = "\<lambda>t. g (t + ncols A * nat l)"
  from randn_ok[OF l, of "ncols A" g] obtain Om where
    Om: "randn (ncols A) l g = Inr (Om, ?g')" "wf_mat Om" "mat_finite Om"
        "nrows Om = ncols A" "ncols Om = nat l"
    by blast
  from mm_ok[of A Om] Om(4) obtain Y where
    Y: "mm A Om = Inr Y" "wf_mat Y" "nrows Y = nrows A" "ncols Y = ncols Om"
    by auto
  have "rows Y \<noteq> []" using Y(3) ne by (auto simp: nrows_def)
  from normalize_columns_ok[OF Y(2) this] obtain Yn where
    Yn: "normalize_columns Y = Inr Yn" "wf_mat Yn" "nrows Yn = nrows Y" "ncols Yn = ncols Y"
    by blast
  from la Yn(2) obtain Q R where
    Q: "qr_reduced la Yn = Inr (Q, R)" "wf_mat Q"
       "shape Q = (nrows Yn, min (nrows Yn) (ncols Yn))" "mat_finite Yn \<longrightarrow> mat_finite Q"
    unfolding qr_ok_def by blast
  have "find_Q la A l g = Inr (Q, ?g')"
    by (simp add: find_Q_def Om(1) Y(1) Yn(1) Q(1))
  with Om Y Yn Q show ?thesis by (simp add: shape_eq)
qed

lemma sketch_maxima_nonzero_E:
  assumes "sketch_maxima_nonzero A l g"
  obtains Om g' Y mx where "randn (ncols A) l g = Inr (Om, g')" "mm A Om = Inr Y"
    "max_axis0 Y = Inr mx" "list_all (\<lambda>v. v \<noteq> Fin 0) mx"
proof (cases "randn (ncols A) l g")
  case (Inl e)
  with assms show ?thesis by (simp add: sketch_maxima_nonzero_def)
next
  case (Inr p)
  obtain Om g' where p: "p = (Om, g')" by (cases p)
  show ?thesis
  proof (cases "mm A Om")
    case (Inl e)
    with assms Inr p show ?thesis by (simp add: sketch_maxima_nonzero_def)
  next
    case Y: (Inr Y)
    show ?thesis
    proof (cases "max_axis0 Y")
      case (Inl e)
      with assms Inr p Y show ?thesis by (simp add: sketch_maxima_nonzero_def)
    next
      case mx: (Inr mx)
      with assms Inr p Y have "list_all (\<lambda>v. v \<noteq> Fin 0) mx"
        by (simp add: sketch_maxima_nonzero_def)
      with Inr p Y mx that show ?thesis by simp
    qed
  qed
qed

lemma sketch_maxima_nonzero_D:
  assumes "sketch_maxima_nonzero A l g"
  shows "0 \<le> l \<and> rows A \<noteq> []"
proof -
  from assms obtain Om g' Y mx where
    r: "randn (ncols A) l g = Inr (Om, g')" and m: "mm A Om = Inr Y" and x: "max_axis0 Y = Inr mx"
    by (rule sketch_maxima_nonzero_E)
  from r have l: "0 \<le> l" by (cases "l < 0") (simp_all add: randn_negative)
  from m have "rows Y = [] \<longleftrightarrow> rows A = []"
    by (auto simp: mm_def split: if_splits)
  moreover from x have "rows Y \<noteq> []" by (auto simp: max_axis0_def split: if_splits)
  ultimately show ?thesis using l by simp
qed

lemma sketch_maxima_nonzero_no_columns:
  assumes "rows A \<noteq> []"
  shows "sketch_maxima_nonzero A 0 g"
  using assms
  by (simp add: sketch_maxima_nonzero_def randn_def mm_def max_axis0_def nrows_def)

lemma sketch_finite:
  assumes "real_matrix A" "sketch_maxima_nonzero A l g"
    and "randn (ncols A) l g = Inr (Om, g')" "mm A Om = Inr Y" "normalize_columns Y = Inr Yn"
    and "wf_mat Om" "mat_finite Om" "wf_mat Y"
  shows "mat_finite Yn"
proof -
  from assms(1) have fin: "mat_finite A" by (simp add: real_matrix_def)
  have Yfin: "mat_finite Y" using fin assms(6,7,4) by (rule mm_finite)
  from assms(2) obtain Om0 g0 Y0 mx where
    "randn (ncols A) l g = Inr (Om0, g0)" "mm A Om0 = Inr Y0"
    "max_axis0 Y0 = Inr mx" "list_all (\<lambda>v. v \<noteq> Fin 0) mx"
    by (rule sketch_maxima_nonzero_E)
  with assms(3,4) have mx: "max_axis0 Y = Inr mx" "list_all (\<lambda>v. v \<noteq> Fin 0) mx"
    by simp_all
  show ?thesis using assms(8) Yfin mx assms(5) by (rule normalize_columns_finite)
qed

lemma rsvd_locals_ok:
  assumes la: "linalg_ok la" and A: "real_matrix A" and nz: "sketch_maxima_nonzero A l g"
  shows "\<exists>Q B S Sg Vt U.
     rsvd_locals la A l g = Inr ((Q, B, S, Sg, Vt, U), \<lambda>t. g (t + ncols A * nat l)) \<and>
     find_Q la A l g = Inr (Q, \<lambda>t. g (t + ncols A * nat l)) \<and>
     mm (transpose_mat Q) A = Inr B \<and> svd la B = Inr (S, Sg, Vt) \<and> mm Q S = Inr U \<and>
     shape Q = (nrows A, min (nrows A) (nat l)) \<and>
     shape B = (min (nrows A) (nat l), ncols A) \<and>
     shape S = (min (nrows A) (nat l), min (nrows A) (nat l)) \<and>
     length Sg = min (min (nrows A) (nat l)) (ncols A) \<and>
     shape Vt = (ncols A, ncols A) \<and>
     shape U = (nrows A, min (nrows A) (nat l)) \<and>
     sorted_desc Sg \<and> orthonormal_cols S \<and> orthonormal_rows Vt"
proof -
  let ?g' = "\<lambda>t. g (t + ncols A * nat l)"
  let ?q = "min (nrows A) (nat l)"
  from A have wf: "wf_mat A" and fin: "mat_finite A" by (simp_all add: real_matrix_def)
  from la have qr: "qr_ok (qr_reduced la)" and sv: "svd_ok (svd la)"
    by (simp_all add: linalg_ok_def)
  from sketch_maxima_nonzero_D[OF nz] have l: "0 \<le> l" and ne: "rows A \<noteq> []" by simp_all
  from find_Q_steps[OF qr wf ne l, of g] obtain Om Y Yn Q R where
    st: "randn (ncols A) l g = Inr (Om, ?g')" "wf_mat Om" "mat_finite Om"
        "mm A Om = Inr Y" "wf_mat Y" "normalize_columns Y = Inr Yn"
        "wf_mat Q" "shape Q = (nrows A, ?q)" "mat_finite Yn \<longrightarrow> mat_finite Q"
        "find_Q la A l g = Inr (Q, ?g')"
    by blast
  have "mat_finite Yn" using A nz st(1,4,6,2,3,5) by (rule sketch_finite)
  with st(9) have Qfin: "mat_finite Q" by simp
  from st(8) have Qs: "nrows Q = nrows A" "ncols Q = ?q" by (simp_all add: shape_eq)
  from mm_ok[of "transpose_mat Q" A] Qs obtain B where
    B: "mm (transpose_mat Q) A = Inr B" "wf_mat B" "nrows B = ?q" "ncols B = ncols A"
    by auto
  have Bfin: "mat_finite B"
    using transpose_mat_finite[OF st(7) Qfin] wf fin B(1) by (rule mm_finite)
  from sv B(2) Bfin obtain S Sg Vt where
    S: "svd la B = Inr (S, Sg, Vt)" "shape S = (nrows B, nrows B)"
       "length Sg = min (nrows B) (ncols B)" "shape Vt = (ncols B, ncols B)"
       "sorted_desc Sg" "orthonormal_cols S" "orthonormal_rows Vt"
    unfolding svd_ok_def by blast
  from S(2) B(3) have Ss: "nrows S = ?q" "ncols S = ?q" by (simp_all add: shape_eq)
  from mm_ok[of Q S] Qs Ss obtain U where
    U: "mm Q S = Inr U" "nrows U = nrows Q" "ncols U = ncols S"
    by auto
  have loc: "rsvd_locals la A l g = Inr ((Q, B, S, Sg, Vt, U), ?g')"
    by (simp add: rsvd_locals_def st(10) B(1) S(1) U(1))
  have sB: "shape B = (?q, ncols A)" using B(3,4) by (simp add: shape_eq)
  have sS: "shape S = (?q, ?q)" using Ss by (simp add: shape_eq)
  have lSg: "length Sg = min ?q (ncols A)" using S(3) B(3,4) by simp
  have sVt: "shape Vt = (ncols A, ncols A)" using S(4) B(4) by simp
  have sU: "shape U = (nrows A, ?q)" using U(2,3) Qs Ss by (simp add: shape_eq)
  from loc st(10) B(1) S(1) U(1) st(8) sB sS lSg sVt sU S(5,6,7)
  show ?thesis by blast
qed

lemma rsvd_eq_locals:
  "rsvd la A k l return_Q g =
     (case rsvd_locals la A (default_l k l) g of
        Inl e \<Rightarrow> Inl e
      | Inr ((Q, B, S, Sg, Vt, U), g') \<Rightarrow>
          if return_Q
          then Inr (Quadruple (cols_upto k U) (vec_upto k Sg) (rows_upto k Vt) Q, g')
          else Inr (Triple (cols_upto k U) (vec_upto k Sg) (rows_upto k Vt), g'))"
proof (cases "find_Q la A (default_l k l) g")
  case (Inl e)
  then show ?thesis by (simp add: rsvd_def rsvd_locals_def default_l_def)
next
  case (Inr p)
  obtain Q g' where p: "p = (Q, g')" by (cases p)
  note fq = Inr[unfolded p]
  show ?thesis
  proof (cases "mm (transpose_mat Q) A")
    case (Inl e)
    with fq show ?thesis by (simp add: rsvd_def rsvd_locals_def default_l_def)
  next
    case B: (Inr B)
    show ?thesis
    proof (cases "svd la B")
      case (Inl e)
      with fq B show ?thesis by (simp add: rsvd_def rsvd_locals_def default_l_def)
    next
      case sv: (Inr t)
      obtain S Sg Vt where t: "t = (S, Sg, Vt)" by (cases t)
      show ?thesis
      proof (cases "mm Q S")
        case (Inl e)
        with fq B sv t show ?thesis by (simp add: rsvd_def rsvd_locals_def default_l_def)
      next
        case (Inr U)
        with fq B sv t show ?thesis by (simp add: rsvd_def rsvd_locals_def default_l_def)
      qed
    qed
  qed
qed

lemma rsvd_triple:
  assumes "rsvd_locals la A (default_l k l) g = Inr ((Q, B, S, Sg, Vt, U), g')"
  shows "rsvd la A k l False g = Inr (Triple (cols_upto k U) (vec_upto k Sg) (rows_upto k Vt), g')"
  by (simp add: rsvd_eq_locals assms)

lemma rsvd_truncated_shapes:
  assumes "linalg_ok la" "real_matrix A" "0 \<le> k" "sketch_maxima_nonzero A (default_l k l) g"
  shows "\<exists>Q B S Sg Vt U g'.
     rsvd_locals la A (default_l k l) g = Inr ((Q, B, S, Sg, Vt, U), g') \<and>
     shape B = (min (nrows A) (nat (default_l k l)), ncols A) \<and>
     shape Vt = (ncols A, ncols A) \<and>
     rsvd la A k l False g =
       Inr (Triple (cols_upto k U) (vec_upto k Sg) (rows_upto k Vt), g') \<and>
     shape (cols_upto k U) = (nrows A, min (nat k) (min (nrows A) (nat (default_l k l)))) \<and>
     length (vec_upto k Sg) =
       min (nat k) (min (min (nrows A) (nat (default_l k l))) (ncols A)) \<and>
     shape (rows_upto k Vt) = (min (nat k) (ncols A), ncols A)"
proof -
  let ?l = "default_l k l"
  let ?q = "min (nrows A) (nat ?l)"
  from rsvd_locals_ok[OF assms(1,2,4)] obtain Q B S Sg Vt U g' where
    loc: "rsvd_locals la A ?l g = Inr ((Q, B, S, Sg, Vt, U), g')" and
    sB: "shape B = (?q, ncols A)" and
    sU: "shape U = (nrows A, ?q)" and
    lSg: "length Sg = min ?q (ncols A)" and
    sVt: "shape Vt = (ncols A, ncols A)"
    by blast
  have res: "rsvd la A k l False g =
       Inr (Triple (cols_upto k U) (vec_upto k Sg) (rows_upto k Vt), g')"
    using loc by (rule rsvd_triple)
  have c1: "shape (cols_upto k U) = (nrows A, min (nat k) ?q)"
    using sU by (simp add: cols_upto_shape[OF assms(3)] shape_eq)
  have c2: "length (vec_upto k Sg) = min (nat k) (min ?q (ncols A))"
    by (simp add: vec_upto_length[OF assms(3)] lSg)
  have c3: "shape (rows_upto k Vt) = (min (nat k) (ncols A), ncols A)"
    using sVt by (simp add: rows_upto_shape[OF assms(3)] shape_eq)
  from loc sB sVt res c1 c2 c3 show ?thesis by blast
qed



section \<open>The reference primitives meet the contract\<close>

lemma eye_shape [simp]: "nrows (eye m n) = m" "ncols (eye m n) = n"
  by (simp_all add: eye_def nrows_def)

lemma eye_wf: "wf_mat (eye m n)"
  by (simp add: eye_def wf_mat_def list_all_iff)

lemma eye_finite: "mat_finite (eye m n)"
  by (simp add: eye_def mat_finite_def list_all_iff)

lemma eye_row: "i < m \<Longrightarrow> rows (eye m n) ! i = map Fin (map (\<lambda>j. if i = j then 1 else 0) [0..<n])"
  by (simp add: eye_def)

lemma unit_dot:
  assumes "i < n" "j < n"
  shows "sum_list (map2 (*) (map (\<lambda>t. if i = t then 1 else 0) [0..<n])
                            (map (\<lambda>t. if j = t then 1 else 0) [0..<n])) =
         (if i = j then 1 else (0::real))"
proof -
  have "map2 (*) (map (\<lambda>t. if i = t then 1 else 0) [0..<n])
                 (map (\<lambda>t. if j = t then 1 else 0) [0..<n]) =
        map (\<lambda>t. if t = i \<and> i = j then 1 else (0::real)) [0..<n]"
    by (auto simp: map2_map_map)
  also have "sum_list \<dots> = (\<Sum>t\<in>{0..<n}. if t = i \<and> i = j then 1 else 0)"
    by (simp add: interv_sum_list_conv_sum_set_nat)
  also have "\<dots> = (if i = j then 1 else 0)"
    using assms by (cases "i = j") simp_all
  finally show ?thesis .
qed

lemma eye_orthonormal_rows: "orthonormal_rows (eye n n)"
  by (simp add: orthonormal_rows_def list_all_iff eye_row dot_Fin unit_dot del: map_map)

lemma transpose_eye: "transpose_mat (eye n n) = eye n n"
  by (auto simp: transpose_mat_def eye_def col_def nrows_def)

lemma eye_orthonormal_cols: "orthonormal_cols (eye n n)"
  by (simp add: orthonormal_cols_def transpose_eye eye_orthonormal_rows)

lemma sorted_desc_rev_sort: "sorted_desc (map Fin (rev (sort xs)))"
  by (simp add: sorted_desc_def sorted_wrt_map sorted_wrt_rev)

lemma nan_mat_shape [simp]: "nrows (nan_mat m n) = m" "ncols (nan_mat m n) = n"
  by (simp_all add: nan_mat_def nrows_def)

lemma nan_mat_wf: "wf_mat (nan_mat m n)"
  by (simp add: nan_mat_def wf_mat_def list_all_iff)

lemma qr_ref_ok: "qr_ok qr_ref"
  unfolding qr_ok_def
proof (intro allI impI)
  fix Y assume wf: "wf_mat Y"
  let ?K = "min (nrows Y) (ncols Y)"
  let ?R = "\<lparr>ncols = ncols Y, rows = take ?K (rows Y)\<rparr>"
  have "wf_mat ?R"
    using wf by (auto simp: wf_mat_def list_all_iff dest: in_set_takeD)
  moreover have "shape ?R = (?K, ncols Y)"
    by (simp add: shape_def nrows_def)
  ultimately show "\<exists>Q R. qr_ref Y = Inr (Q, R) \<and> wf_mat Q \<and> wf_mat R \<and>
        shape Q = (nrows Y, ?K) \<and> shape R = (?K, ncols Y) \<and> (mat_finite Y \<longrightarrow> mat_finite Q)"
    by (simp add: qr_ref_def eye_wf eye_finite nan_mat_wf shape_eq)
qed

lemma svd_ref_ok: "svd_ok svd_ref"
  unfolding svd_ok_def
  by (simp add: svd_ref_def eye_wf shape_eq eye_orthonormal_rows eye_orthonormal_cols
      sorted_desc_rev_sort)

lemma la_ref_ok: "linalg_ok la_ref"
  by (simp add: linalg_ok_def la_ref_def qr_ref_ok svd_ref_ok)

section \<open>Evaluation on concrete inputs\<close>

lemmas array_defs = normalize_columns_def max_axis0_def reduce_maximum_def col_def
  divide_rows_def signed_inf_def shape_def nrows_def real_matrix_def wf_mat_def mat_finite_def
  normalize_twice_def spec_normalize_columns_def max_magnitude_entry_def
  column_maxima_positive_def

lemmas run_defs = rsvd_def find_Q_def randn_def mm_def transpose_mat_def dot_def
  cols_upto_def rows_upto_def vec_upto_def slice_stop_def la_ref_def qr_ref_def svd_ref_def
  eye_def nan_mat_def returned_def result_shapes_def sketch_maxima_nonzero_def rsvd_locals_def default_l_def

lemma normalize_columns_X_doc: "normalize_columns X_doc = Inr R_doc"
  by (simp add: X_doc_def R_doc_def array_defs upt_rec)







lemma find_Q_A_diag: "returned (find_Q la_ref A_diag 2 eye2_rng) = Inr I_2"
  by (simp add: A_diag_def I_2_def eye2_rng_def run_defs array_defs upt_rec)

lemma find_Q_A_1x1:
  "returned (find_Q la_ref A_1x1 2 ones_rng) = Inr \<lparr>ncols = 1, rows = [[Fin 1]]\<rparr>"
  by (simp add: A_1x1_def ones_rng_def run_defs array_defs upt_rec)

lemma rsvd_A_1x1_rank_zero:
  "returned (rsvd la_ref A_1x1 0 None False ones_rng) =
     Inr (Triple \<lparr>ncols = 0, rows = [[]]\<rparr> [] \<lparr>ncols = 1, rows = []\<rparr>)"
  by (simp add: A_1x1_def ones_rng_def run_defs array_defs upt_rec)

lemma real_matrix_inputs:
  "real_matrix A_1x1" "real_matrix A_2x3" "real_matrix A_1x3" "real_matrix A_0x1"
  "real_matrix A_diag" "real_matrix X_doc" "real_matrix X_mixed" "real_matrix X_negative"
  "real_matrix X_zero_max"
  by (simp_all add: A_1x1_def A_2x3_def A_1x3_def A_0x1_def A_diag_def X_doc_def X_mixed_def
      X_negative_def X_zero_max_def real_matrix_def wf_mat_def mat_finite_def)


text \<open>
  The hypothesis that no column of the sketch has maximum zero cannot be dropped from the
  statements below that say \<^verbatim>\<open>rsvd\<close> returns. For the \<open>2 \<times> 1\<close> matrix with rows \<open>0\<close> and \<open>1\<close> and
  draws \<open>-1\<close>, both columns of the sketch are \<open>(0, -1)\<close> with maximum zero; the normalised sketch
  is not finite, neither are \<open>Q\<close> and \<open>B\<close>, and the decomposition raises \<^verbatim>\<open>LinAlgError\<close>.
\<close>

lemma rsvd_raises_on_zero_sketch_maximum:
  "linalg_ok la_ref \<and> real_matrix A_zero_row \<and>
   \<not> sketch_maxima_nonzero A_zero_row (2 * 1) neg_rng \<and>
   rsvd la_ref A_zero_row 1 None False neg_rng = Inl LinAlgError"
  using la_ref_ok
  by (simp add: A_zero_row_def neg_rng_def run_defs array_defs upt_rec)

section \<open>The claims\<close>

subsection \<open>C1\<close>




subsection \<open>C2\<close>

text \<open>
  C2, as the code has it. For a matrix \<open>A\<close> with \<open>m \<ge> 1\<close> rows and \<open>n\<close> columns and a positive
  integer \<open>l\<close>, \<^verbatim>\<open>find_Q(A, l)\<close> draws the \<open>n \<times> l\<close> matrix \<open>\<Omega>\<close> from the next \<open>n l\<close> values of the
  random source, forms the sketch \<open>Y = A \<Omega>\<close> (\<open>m \<times> l\<close>), normalises the columns of \<open>Y\<close>, takes the
  reduced QR factorisation of the result and returns \<open>Q\<close>, dropping \<open>R\<close>; none of the steps
  raises. \<open>Q\<close> has shape \<open>(m, min m l)\<close>: it is \<open>m \<times> l\<close> when \<open>l \<le> m\<close>.
\<close>

theorem find_Q_range_finder_steps:
  assumes "linalg_ok la" "wf_mat A" "rows A \<noteq> []" "1 \<le> l"
  shows "\<exists>Om Y Yn Q R.
     randn (ncols A) l g = Inr (Om, \<lambda>t. g (t + ncols A * nat l)) \<and>
     shape Om = (ncols A, nat l) \<and>
     (\<forall>i<ncols A. \<forall>j<nat l. rows Om ! i ! j = Fin (g (i * nat l + j))) \<and>
     mm A Om = Inr Y \<and> shape Y = (nrows A, nat l) \<and>
     normalize_columns Y = Inr Yn \<and> shape Yn = (nrows A, nat l) \<and>
     qr_reduced la Yn = Inr (Q, R) \<and>
     find_Q la A l g = Inr (Q, \<lambda>t. g (t + ncols A * nat l)) \<and>
     shape Q = (nrows A, min (nrows A) (nat l))"
proof -
  let ?g' = "\<lambda>t. g (t + ncols A * nat l)"
  from assms(1) have qr: "qr_ok (qr_reduced la)" by (simp add: linalg_ok_def)
  from assms(4) have l: "0 \<le> l" by simp
  from find_Q_steps[OF qr assms(2,3) l, of g] obtain Om Y Yn Q R where
    st: "randn (ncols A) l g = Inr (Om, ?g')" "shape Om = (ncols A, nat l)"
        "mm A Om = Inr Y" "shape Y = (nrows A, nat l)"
        "normalize_columns Y = Inr Yn" "shape Yn = (nrows A, nat l)"
        "qr_reduced la Yn = Inr (Q, R)" "find_Q la A l g = Inr (Q, ?g')"
        "shape Q = (nrows A, min (nrows A) (nat l))"
    by blast
  have "\<forall>i<ncols A. \<forall>j<nat l. rows Om ! i ! j = Fin (g (i * nat l + j))"
    using randn_entries[OF st(1)] by blast
  with st show ?thesis by blast
qed

text \<open>The theorem at the diagonal \<open>2 \<times> 2\<close> matrix with \<open>l = 2\<close>.\<close>

theorem find_Q_range_finder_steps_witness:
  "linalg_ok la_ref \<and> wf_mat A_diag \<and> rows A_diag \<noteq> [] \<and> (1::int) \<le> 2 \<and>
   returned (find_Q la_ref A_diag 2 eye2_rng) = Inr I_2 \<and> shape I_2 = (2, 2)"
proof -
  have h1: "wf_mat A_diag" using real_matrix_inputs(5) by (simp add: real_matrix_def)
  have h2: "rows A_diag \<noteq> []" by (simp add: A_diag_def)
  have h3: "(1::int) \<le> 2" by simp
  have sh: "shape I_2 = (2, 2)" by (simp add: I_2_def shape_def nrows_def)
  from find_Q_range_finder_steps[OF la_ref_ok h1 h2 h3, of eye2_rng]
  obtain Q where
    "find_Q la_ref A_diag 2 eye2_rng = Inr (Q, \<lambda>t. eye2_rng (t + ncols A_diag * nat 2))"
    by blast
  with la_ref_ok h1 h2 h3 find_Q_A_diag sh show ?thesis by blast
qed

text \<open>
  C2 as stated fails when \<open>l\<close> exceeds the number of rows: for the \<open>1 \<times> 1\<close> matrix \<open>[[2]]\<close> and
  \<open>l = 2\<close> the factor returned is \<open>1 \<times> 1\<close>, not \<open>1 \<times> 2\<close>.
\<close>

theorem find_Q_range_finder_steps_counterexample:
  "linalg_ok la_ref \<and> wf_mat A_1x1 \<and> shape A_1x1 = (1, 1) \<and>
   returned (find_Q la_ref A_1x1 2 ones_rng) = Inr \<lparr>ncols = 1, rows = [[Fin 1]]\<rparr> \<and>
   shape \<lparr>ncols = 1, rows = [[Fin 1]]\<rparr> = (1, 1) \<and>
   shape \<lparr>ncols = 1, rows = [[Fin 1]]\<rparr> \<noteq> (1, 2)"
  using la_ref_ok find_Q_A_1x1
  by (simp add: shape_def nrows_def A_1x1_def wf_mat_def)

subsection \<open>C3\<close>




subsection \<open>C4\<close>

text \<open>
  C4, as the code has it. For every real matrix \<open>X\<close> with at least one row,
  \<^verbatim>\<open>normalize_columns(X)\<close> returns a matrix of the shape of \<open>X\<close> whose entry \<open>(i, j)\<close> is
  \<open>X[i, j]\<close> divided by the maximum of column \<open>j\<close>: the largest entry of the column with its
  sign (an entry of the column that every entry is below or equal to), not the entry of
  largest absolute value.
\<close>

theorem normalize_columns_divides_by_max:
  assumes "real_matrix X" "rows X \<noteq> []"
  shows "\<exists>R. normalize_columns X = Inr R \<and> shape R = shape X \<and>
     (\<forall>i<nrows X. \<forall>j<ncols X.
        rows R ! i ! j = fl_div (rows X ! i ! j) (reduce_maximum (col X j)) \<and>
        reduce_maximum (col X j) \<in> set (col X j) \<and>
        list_all (\<lambda>x. fl_le x (reduce_maximum (col X j))) (col X j))"
proof -
  let ?mx = "map (\<lambda>j. reduce_maximum (col X j)) [0..<ncols X]"
  let ?R = "divide_rows X ?mx"
  from assms have wf: "wf_mat X" and fin: "mat_finite X" by (simp_all add: real_matrix_def)
  have "normalize_columns X = Inr ?R" using assms(2) by (rule normalize_columns_rows)
  moreover have "shape ?R = shape X" by (simp add: shape_def)
  moreover have "rows ?R ! i ! j = fl_div (rows X ! i ! j) (reduce_maximum (col X j))"
    if "i < nrows X" "j < ncols X" for i j
    using divide_rows_nth[OF wf _ that, of ?mx] that by simp
  moreover have "reduce_maximum (col X j) \<in> set (col X j) \<and>
        list_all (\<lambda>x. fl_le x (reduce_maximum (col X j))) (col X j)"
    if "j < ncols X" for j
    using reduce_maximum_finite[OF col_nonempty[OF assms(2)] finite_col[OF fin wf that]] by simp
  ultimately show ?thesis by blast
qed

text \<open>The theorem at the matrix of the docstring.\<close>

theorem normalize_columns_divides_by_max_witness:
  "real_matrix X_doc \<and> rows X_doc \<noteq> [] \<and> normalize_columns X_doc = Inr R_doc \<and>
   shape R_doc = shape X_doc"
proof -
  have h2: "rows X_doc \<noteq> []" by (simp add: X_doc_def)
  from normalize_columns_divides_by_max[OF real_matrix_inputs(6) h2]
  obtain R where "normalize_columns X_doc = Inr R" "shape R = shape X_doc"
    by blast
  with normalize_columns_X_doc have "shape R_doc = shape X_doc" by simp
  with real_matrix_inputs(6) h2 normalize_columns_X_doc show ?thesis by blast
qed

text \<open>
  C4 as stated fails on a column whose entry of largest magnitude is negative: the column
  \<open>(1, -3)\<close> is divided by \<open>1\<close> and stays \<open>(1, -3)\<close>, while dividing by its entry of largest
  absolute value gives \<open>(-1/3, 1)\<close>.
\<close>

theorem normalize_columns_divides_by_max_counterexample:
  "real_matrix X_mixed \<and> rows X_mixed \<noteq> [] \<and>
   normalize_columns X_mixed = Inr \<lparr>ncols = 1, rows = [[Fin 1], [Fin (- 3)]]\<rparr> \<and>
   spec_normalize_columns X_mixed = Inr \<lparr>ncols = 1, rows = [[Fin (- 1 / 3)], [Fin 1]]\<rparr> \<and>
   normalize_columns X_mixed \<noteq> spec_normalize_columns X_mixed"
  using real_matrix_inputs(7) by (simp add: X_mixed_def array_defs upt_rec)

subsection \<open>C5\<close>




subsection \<open>C6\<close>




subsection \<open>C7\<close>

text \<open>
  C7, as the code has it. For every real matrix \<open>X\<close> with at least one row in which the
  maximum of every column is positive, applying \<^verbatim>\<open>normalize_columns\<close> twice gives the result of
  applying it once: after one application the maximum of every column is \<open>1\<close>.
\<close>

theorem normalize_columns_idempotent_positive:
  assumes "real_matrix X" "column_maxima_positive X"
  shows "\<exists>R. normalize_columns X = Inr R \<and> normalize_twice X = Inr R"
proof -
  let ?n = "ncols X"
  let ?mx = "map (\<lambda>j. reduce_maximum (col X j)) [0..<?n]"
  let ?R = "divide_rows X ?mx"
  from assms(1) have wf: "wf_mat X" and fin: "mat_finite X" by (simp_all add: real_matrix_def)
  from assms(2) have ne: "rows X \<noteq> []"
    by (auto simp: column_maxima_positive_def max_axis0_def split: if_splits)
  have mx: "max_axis0 X = Inr ?mx" using ne by (rule max_axis0_rows)
  have n1: "normalize_columns X = Inr ?R" using ne by (rule normalize_columns_rows)
  have wfR: "wf_mat ?R" using wf by (intro divide_rows_wf) simp_all
  have neR: "rows ?R \<noteq> []" using ne by (simp add: divide_rows_def)
  have one: "reduce_maximum (col ?R j) = Fin 1" if j: "j < ?n" for j
  proof -
    let ?c = "col X j"
    have cfin: "list_all isfinite ?c" using fin wf j by (rule finite_col)
    have cne: "?c \<noteq> []" using ne by (rule col_nonempty)
    from reduce_maximum_finite[OF cne cfin] obtain M where M: "reduce_maximum ?c = Fin M"
      by (auto simp: isfinite_iff)
    from assms(2) j have "fl_le (Fin 0) (reduce_maximum ?c) \<and> reduce_maximum ?c \<noteq> Fin 0"
      by (simp add: column_maxima_positive_def mx list_all_iff)
    with M have pos: "0 < M" by simp
    have "col ?R j = map (\<lambda>x. fl_div x (?mx ! j)) ?c"
      using wf _ j by (rule col_divide_rows) simp
    also have "?mx ! j = Fin M" using j M by simp
    finally show ?thesis using reduce_maximum_scaled[OF cne cfin M pos] by simp
  qed
  have ones: "map (\<lambda>j. reduce_maximum (col ?R j)) [0..<ncols ?R] = map (\<lambda>j. Fin 1) [0..<?n]"
    using one by simp
  have n2: "normalize_columns ?R = Inr (divide_rows ?R (map (\<lambda>j. Fin 1) [0..<?n]))"
    using normalize_columns_rows[OF neR] unfolding ones .
  have "map (\<lambda>r. map2 fl_div r (map (\<lambda>j. Fin 1) [0..<?n])) (rows ?R) = rows ?R"
    using wf_mat_row[OF wfR] by (intro map_idI map2_div_ones) simp
  then have "divide_rows ?R (map (\<lambda>j. Fin 1) [0..<?n]) = ?R"
    by (simp add: divide_rows_def[of ?R])
  with n1 n2 show ?thesis by (simp add: normalize_twice_def)
qed

text \<open>The theorem at the matrix of the docstring.\<close>

theorem normalize_columns_idempotent_positive_witness:
  "real_matrix X_doc \<and> column_maxima_positive X_doc \<and>
   normalize_columns X_doc = Inr R_doc \<and> normalize_twice X_doc = Inr R_doc"
proof -
  have h2: "column_maxima_positive X_doc"
    by (simp add: X_doc_def array_defs upt_rec)
  from normalize_columns_idempotent_positive[OF real_matrix_inputs(6) h2]
  obtain R where "normalize_columns X_doc = Inr R" "normalize_twice X_doc = Inr R"
    by blast
  with normalize_columns_X_doc have "normalize_twice X_doc = Inr R_doc" by simp
  with real_matrix_inputs(6) h2 normalize_columns_X_doc show ?thesis by blast
qed

text \<open>
  C7 as stated fails on a column whose maximum is negative: the column \<open>(-2, -4)\<close> becomes
  \<open>(1, 2)\<close>, whose maximum is \<open>2\<close>, and a second application gives \<open>(1/2, 1)\<close>.
\<close>

theorem normalize_columns_idempotent_counterexample:
  "real_matrix X_negative \<and> rows X_negative \<noteq> [] \<and>
   normalize_columns X_negative = Inr \<lparr>ncols = 1, rows = [[Fin 1], [Fin 2]]\<rparr> \<and>
   normalize_twice X_negative = Inr \<lparr>ncols = 1, rows = [[Fin (1 / 2)], [Fin 1]]\<rparr> \<and>
   normalize_twice X_negative \<noteq> normalize_columns X_negative"
  using real_matrix_inputs(8) by (simp add: X_negative_def array_defs upt_rec)

subsection \<open>C8\<close>

text \<open>
  C8. For every matrix \<open>X\<close> with a column \<open>j\<close> whose maximum is zero, \<^verbatim>\<open>normalize_columns(X)\<close>
  raises no error: it returns a matrix of the shape of \<open>X\<close> in which every entry of column \<open>j\<close>
  (there is at least one) is not finite, being an infinity or not-a-number produced by the
  division by zero.
\<close>

theorem normalize_columns_zero_max_nonfinite:
  assumes "wf_mat X" "max_axis0 X = Inr mx" "j < ncols X" "mx ! j = Fin 0"
  shows "\<exists>R. normalize_columns X = Inr R \<and> shape R = shape X \<and> 0 < nrows X \<and>
     list_all (\<lambda>r. \<not> isfinite (r ! j)) (rows R)"
proof -
  from assms(2) have ne: "rows X \<noteq> []" by (auto simp: max_axis0_def split: if_splits)
  have len: "length mx = ncols X" using assms(2) by (rule max_axis0_length)
  have norm: "normalize_columns X = Inr (divide_rows X mx)"
    by (simp add: normalize_columns_def assms(2))
  have "\<not> isfinite (r ! j)" if "r \<in> set (rows (divide_rows X mx))" for r
  proof -
    from that obtain r0 where r0: "r0 \<in> set (rows X)" and r: "r = map2 fl_div r0 mx"
      by (auto simp: divide_rows_def)
    have "length r0 = ncols X" using wf_mat_row[OF assms(1) r0] .
    then have "r ! j = fl_div (r0 ! j) (mx ! j)" using assms(3) len by (simp add: r)
    then show ?thesis by (simp add: assms(4) fl_div_zero_nonfinite)
  qed
  then have "list_all (\<lambda>r. \<not> isfinite (r ! j)) (rows (divide_rows X mx))"
    by (simp add: list_all_iff)
  moreover have "0 < nrows X" using ne by (simp add: nrows_def)
  ultimately show ?thesis using norm by (simp add: shape_def)
qed

text \<open>The theorem at a matrix whose first column \<open>(0, -1)\<close> has maximum zero.\<close>

theorem normalize_columns_zero_max_nonfinite_witness:
  "wf_mat X_zero_max \<and> max_axis0 X_zero_max = Inr [Fin 0, Fin 2] \<and> (0::nat) < ncols X_zero_max \<and>
   [Fin 0, Fin 2] ! 0 = Fin 0 \<and>
   normalize_columns X_zero_max = Inr \<lparr>ncols = 2, rows = [[NaN, Fin (1 / 2)], [NInf, Fin 1]]\<rparr> \<and>
   list_all (\<lambda>r. \<not> isfinite (r ! 0)) [[NaN, Fin (1 / 2)], [NInf, Fin 1]]"
proof -
  have h1: "wf_mat X_zero_max" using real_matrix_inputs(9) by (simp add: real_matrix_def)
  have h2: "max_axis0 X_zero_max = Inr [Fin 0, Fin 2]"
    by (simp add: X_zero_max_def array_defs upt_rec)
  have h3: "(0::nat) < ncols X_zero_max" by (simp add: X_zero_max_def)
  have h4: "[Fin 0, Fin 2] ! 0 = Fin 0" by simp
  have ev: "normalize_columns X_zero_max =
      Inr \<lparr>ncols = 2, rows = [[NaN, Fin (1 / 2)], [NInf, Fin 1]]\<rparr>"
    by (simp add: X_zero_max_def array_defs upt_rec)
  from normalize_columns_zero_max_nonfinite[OF h1 h2 h3 h4]
  obtain R where "normalize_columns X_zero_max = Inr R"
    "list_all (\<lambda>r. \<not> isfinite (r ! 0)) (rows R)"
    by blast
  with ev have "list_all (\<lambda>r. \<not> isfinite (r ! 0)) [[NaN, Fin (1 / 2)], [NInf, Fin 1]]"
    by auto
  with h1 h2 h3 h4 ev show ?thesis by blast
qed

subsection \<open>C9\<close>



subsection \<open>C10\<close>

text \<open>
  C10, as the code has it. For every real \<open>m \<times> n\<close> matrix \<open>A\<close> with at least one row, the call
  \<^verbatim>\<open>rsvd(A, 0)\<close> raises no error: \<open>l\<close> defaults to \<open>0\<close>, and the call returns an \<open>m \<times> 0\<close> matrix
  \<open>U\<^sub>k\<close>, an empty vector \<open>\<Sigma>\<^sub>k\<close> and a \<open>0 \<times> n\<close> matrix \<open>Vt\<^sub>k\<close>.
\<close>

theorem rsvd_rank_zero:
  assumes "linalg_ok la" "real_matrix A" "rows A \<noteq> []"
  shows "\<exists>Uk Sk Vk g'.
     rsvd la A 0 None False g = Inr (Triple Uk Sk Vk, g') \<and>
     shape Uk = (nrows A, 0) \<and> Sk = [] \<and> shape Vk = (0, ncols A)"
proof -
  have dl: "default_l 0 None = 0" by (simp add: default_l_def)
  have nz: "sketch_maxima_nonzero A (default_l 0 None) g"
    unfolding dl using assms(3) by (rule sketch_maxima_nonzero_no_columns)
  from rsvd_truncated_shapes[OF assms(1,2) _ nz]
  obtain Sg Vt U g' where
    res: "rsvd la A 0 None False g =
       Inr (Triple (cols_upto 0 U) (vec_upto 0 Sg) (rows_upto 0 Vt), g')" and
    c1: "shape (cols_upto 0 U) = (nrows A, min (nat 0) (min (nrows A) (nat 0)))" and
    c2: "length (vec_upto 0 Sg) = min (nat 0) (min (min (nrows A) (nat 0)) (ncols A))" and
    c3: "shape (rows_upto 0 Vt) = (min (nat 0) (ncols A), ncols A)"
    unfolding dl by blast
  from c1 have d1: "shape (cols_upto 0 U) = (nrows A, 0)" by simp
  from c2 have d2: "vec_upto 0 Sg = []" by simp
  from c3 have d3: "shape (rows_upto 0 Vt) = (0, ncols A)" by simp
  from res d1 d2 d3 show ?thesis by blast
qed

text \<open>The theorem at the \<open>1 \<times> 1\<close> matrix \<open>[[2]]\<close>.\<close>

theorem rsvd_rank_zero_witness:
  "linalg_ok la_ref \<and> real_matrix A_1x1 \<and> rows A_1x1 \<noteq> [] \<and>
   returned (rsvd la_ref A_1x1 0 None False ones_rng) =
     Inr (Triple \<lparr>ncols = 0, rows = [[]]\<rparr> [] \<lparr>ncols = 1, rows = []\<rparr>) \<and>
   result_shapes (Triple \<lparr>ncols = 0, rows = [[]]\<rparr> [] \<lparr>ncols = 1, rows = []\<rparr>) =
     ((1, 0), 0, (0, 1))"
proof -
  have h: "rows A_1x1 \<noteq> []" by (simp add: A_1x1_def)
  have sh: "result_shapes (Triple \<lparr>ncols = 0, rows = [[]]\<rparr> [] \<lparr>ncols = 1, rows = []\<rparr>) =
     ((1, 0), 0, (0, 1))"
    by (simp add: result_shapes_def shape_def nrows_def)
  from rsvd_rank_zero[OF la_ref_ok real_matrix_inputs(1) h, of ones_rng]
  obtain Uk Sk Vk g' where
    "rsvd la_ref A_1x1 0 None False ones_rng = Inr (Triple Uk Sk Vk, g')"
    by blast
  with la_ref_ok real_matrix_inputs(1) h rsvd_A_1x1_rank_zero sh show ?thesis by blast
qed

text \<open>
  C10 as stated fails on a matrix without rows: for the \<open>0 \<times> 1\<close> array the sketch has no row,
  its column maximum raises \<^verbatim>\<open>ValueError\<close>, and so does the call.
\<close>

theorem rsvd_rank_zero_counterexample:
  "linalg_ok la_ref \<and> real_matrix A_0x1 \<and> shape A_0x1 = (0, 1) \<and>
   rsvd la_ref A_0x1 0 None False ones_rng = Inl ValueError"
  using la_ref_ok real_matrix_inputs(4)
  by (simp add: A_0x1_def ones_rng_def run_defs array_defs upt_rec)

end
